theory Spec2Isabelle
  imports Main "HOL-Library.Sublist"
begin

section \<open>Text\<close>

text \<open>
  Python text is modelled as \<^typ>\<open>string\<close>. A \<^typ>\<open>char\<close> stands for the Unicode code
  point of the same number, so the model covers text over the code points 0 to 255; the
  character classes below are those of Python 3 on that range.
\<close>

definition py_isspace :: "char \<Rightarrow> bool" where
  \<comment> \<open>\<open>str.isspace\<close>, used by \<open>strip()\<close>, \<open>split()\<close> and the regex class \<open>\s\<close>\<close>
  "py_isspace c =
     (let n = (of_char c :: nat)
      in (9 \<le> n \<and> n \<le> 13) \<or> (28 \<le> n \<and> n \<le> 32) \<or> n = 133 \<or> n = 160)"

definition py_isword :: "char \<Rightarrow> bool" where
  \<comment> \<open>the regex class \<open>\w\<close> on text: \<open>str.isalnum\<close> or the underscore\<close>
  "py_isword c =
     (let n = (of_char c :: nat)
      in (48 \<le> n \<and> n \<le> 57) \<or> (65 \<le> n \<and> n \<le> 90) \<or> n = 95 \<or> (97 \<le> n \<and> n \<le> 122) \<or>
         n = 170 \<or> n = 178 \<or> n = 179 \<or> n = 181 \<or> n = 185 \<or> n = 186 \<or>
         (188 \<le> n \<and> n \<le> 190) \<or> (192 \<le> n \<and> n \<le> 214) \<or> (216 \<le> n \<and> n \<le> 246) \<or>
         248 \<le> n)"

definition py_isdigit :: "char \<Rightarrow> bool" where
  \<comment> \<open>the regex class \<open>\d\<close> on text (decimal digits), which is \<open>[0-9]\<close> on this range\<close>
  "py_isdigit c = (let n = (of_char c :: nat) in 48 \<le> n \<and> n \<le> 57)"

definition py_lower_char :: "char \<Rightarrow> char" where
  "py_lower_char c =
     (let n = (of_char c :: nat)
      in if (65 \<le> n \<and> n \<le> 90) \<or> (192 \<le> n \<and> n \<le> 222 \<and> n \<noteq> 215) then char_of (n + 32) else c)"

definition py_lower :: "string \<Rightarrow> string" where
  \<comment> \<open>\<open>s.lower()\<close>\<close>
  "py_lower s = map py_lower_char s"

definition py_strip :: "string \<Rightarrow> string" where
  \<comment> \<open>\<open>s.strip()\<close>\<close>
  "py_strip s = rev (dropWhile py_isspace (rev (dropWhile py_isspace s)))"

fun split_from :: "string \<Rightarrow> string \<Rightarrow> string list" where
  \<comment> \<open>the scan of \<open>s.split()\<close>: the word read so far, then the text still to read\<close>
  "split_from cur [] = (if cur = [] then [] else [cur])"
| "split_from cur (c # cs) =
     (if py_isspace c then (if cur = [] then split_from [] cs else cur # split_from [] cs)
      else split_from (cur @ [c]) cs)"

definition py_split :: "string \<Rightarrow> string list" where
  \<comment> \<open>\<open>s.split()\<close>: the maximal runs of characters that are not whitespace\<close>
  "py_split s = split_from [] s"

fun starts_with :: "string \<Rightarrow> string \<Rightarrow> bool" where
  "starts_with [] s = True"
| "starts_with (p # ps) [] = False"
| "starts_with (p # ps) (c # cs) = (p = c \<and> starts_with ps cs)"

fun py_in :: "string \<Rightarrow> string \<Rightarrow> bool" where
  \<comment> \<open>\<open>p in s\<close> on strings: \<open>p\<close> occurs in \<open>s\<close>\<close>
  "py_in p [] = (p = [])"
| "py_in p (c # cs) = (starts_with p (c # cs) \<or> py_in p cs)"

section \<open>Regular expressions\<close>

text \<open>
  The patterns of the program use character classes, literals, greedy repetition of a
  class, sequence, alternation, the greedy option \<open>r?\<close>, one capturing group and the word
  boundary \<open>\b\<close>. \<open>matches r s (i, c)\<close> lists the ways \<open>r\<close> can match \<open>s\<close> from position \<open>i\<close>,
  each as the end position and the span of the group, in the order in which the
  backtracking matcher of \<open>re\<close> tries them; the match it reports is the first.
\<close>

type_synonym span = "(nat \<times> nat) option"

datatype regex =
    Cls "char \<Rightarrow> bool"
  | Lit string
  | Rep "char \<Rightarrow> bool" nat "nat option"
  | Seq regex regex
  | Alt regex regex
  | Opt regex
  | Grp regex
  | Bnd

definition word_boundary :: "string \<Rightarrow> nat \<Rightarrow> bool" where
  \<comment> \<open>\<open>\b\<close>: exactly one of the two neighbouring characters is a word character\<close>
  "word_boundary s i =
     ((0 < i \<and> i \<le> length s \<and> py_isword (s ! (i - 1))) \<noteq> (i < length s \<and> py_isword (s ! i)))"

fun matches :: "regex \<Rightarrow> string \<Rightarrow> nat \<times> span \<Rightarrow> (nat \<times> span) list" where
  "matches (Cls p) s (i, c) = (if i < length s \<and> p (s ! i) then [(i + 1, c)] else [])"
| "matches (Lit w) s (i, c) = (if starts_with w (drop i s) then [(i + length w, c)] else [])"
| "matches (Rep p lo hi) s (i, c) =
     (let run = length (takeWhile p (drop i s));
          most = (case hi of None \<Rightarrow> run | Some h \<Rightarrow> min run h)
      in map (\<lambda>k. (i + k, c)) (rev [lo ..< Suc most]))"
| "matches (Seq a b) s ic = concat (map (matches b s) (matches a s ic))"
| "matches (Alt a b) s ic = matches a s ic @ matches b s ic"
| "matches (Opt a) s ic = matches a s ic @ [ic]"
| "matches (Grp a) s (i, c) = map (\<lambda>(j, c'). (j, Some (i, j))) (matches a s (i, c))"
| "matches Bnd s (i, c) = (if word_boundary s i then [(i, c)] else [])"

record match =
  m_start :: nat
  m_end :: nat
  m_group1 :: span

fun scan :: "regex \<Rightarrow> string \<Rightarrow> nat list \<Rightarrow> match option" where
  "scan r s [] = None"
| "scan r s (i # is) =
     (case matches r s (i, None) of
        [] \<Rightarrow> scan r s is
      | (j, c) # _ \<Rightarrow> Some \<lparr>m_start = i, m_end = j, m_group1 = c\<rparr>)"

definition re_search :: "regex \<Rightarrow> string \<Rightarrow> match option" where
  \<comment> \<open>\<open>re.search(r, s)\<close>: the match at the leftmost position that has one\<close>
  "re_search r s = scan r s [0 ..< Suc (length s)]"

definition slice :: "string \<Rightarrow> nat \<Rightarrow> nat \<Rightarrow> string" where
  "slice s i j = take (j - i) (drop i s)"

definition group :: "string \<Rightarrow> match \<Rightarrow> string" where
  \<comment> \<open>\<open>m.group()\<close>\<close>
  "group s m = slice s (m_start m) (m_end m)"

definition group1 :: "string \<Rightarrow> match \<Rightarrow> string option" where
  \<comment> \<open>\<open>m.group(1)\<close>; \<open>None\<close> when the group took no part in the match\<close>
  "group1 s m = map_option (\<lambda>(i, j). slice s i j) (m_group1 m)"

subsection \<open>The words of a pattern\<close>

text \<open>
  The usual meaning of a pattern, against which the matcher is verified: \<open>accepts r w\<close>
  says that the whole word \<open>w\<close> is a word of \<open>r\<close>. A word boundary depends on the text around
  the word, so this meaning is used for patterns without \<open>\b\<close> only.
\<close>


fun accepts :: "regex \<Rightarrow> string \<Rightarrow> bool" where
  "accepts (Cls p) w = (length w = 1 \<and> p (hd w))"
| "accepts (Lit v) w = (w = v)"
| "accepts (Rep p lo hi) w =
     (list_all p w \<and> lo \<le> length w \<and> (case hi of None \<Rightarrow> True | Some h \<Rightarrow> length w \<le> h))"
| "accepts (Seq a b) w = list_ex (\<lambda>k. accepts a (take k w) \<and> accepts b (drop k w)) [0 ..< Suc (length w)]"
| "accepts (Alt a b) w = (accepts a w \<or> accepts b w)"
| "accepts (Opt a) w = (w = [] \<or> accepts a w)"
| "accepts (Grp a) w = accepts a w"
| "accepts Bnd w = (w = [])"

fun bnd_free :: "regex \<Rightarrow> bool" where
  "bnd_free Bnd = False"
| "bnd_free (Seq a b) = (bnd_free a \<and> bnd_free b)"
| "bnd_free (Alt a b) = (bnd_free a \<and> bnd_free b)"
| "bnd_free (Opt a) = bnd_free a"
| "bnd_free (Grp a) = bnd_free a"
| "bnd_free r = True"

fun grp_free :: "regex \<Rightarrow> bool" where
  "grp_free (Grp a) = False"
| "grp_free (Seq a b) = (grp_free a \<and> grp_free b)"
| "grp_free (Alt a b) = (grp_free a \<and> grp_free b)"
| "grp_free (Opt a) = grp_free a"
| "grp_free r = True"

section \<open>Floats\<close>

text \<open>
  \<open>float(group)\<close> reads an unsigned decimal literal and \<open>f"{years}"\<close> prints the float
  with \<open>repr\<close>. A float that is not negative is \<open>Fin m e\<close>, the binary64 number
  \<open>m * 2 ^ e\<close> in its normal form (\<open>2 ^ 52 \<le> m < 2 ^ 53\<close>, or \<open>m < 2 ^ 52\<close> with
  \<open>e = -1074\<close>, or \<open>Fin 0 0\<close> for zero), or the infinity.
\<close>

datatype pyfloat = Fin int int | Infinity

function bitlen :: "int \<Rightarrow> int" where
  \<comment> \<open>the number of binary digits\<close>
  "bitlen n = (if n \<le> 0 then 0 else 1 + bitlen (n div 2))"
  by pat_completeness auto
termination
  by (relation "measure nat") auto

declare bitlen.simps [simp del]

function declen :: "int \<Rightarrow> int" where
  \<comment> \<open>the number of decimal digits\<close>
  "declen n = (if n \<le> 0 then 0 else 1 + declen (n div 10))"
  by pat_completeness auto
termination
  by (relation "measure nat") auto

declare declen.simps [simp del]

definition scale2 :: "int \<Rightarrow> int \<Rightarrow> int" where
  \<comment> \<open>\<open>n * 2 ^ k\<close> for \<open>k\<close> above zero, \<open>n\<close> otherwise\<close>
  "scale2 n k = (if 0 < k then n * 2 ^ nat k else n)"

definition scale10 :: "int \<Rightarrow> int \<Rightarrow> int" where
  "scale10 n k = (if 0 < k then n * 10 ^ nat k else n)"

definition round_half_even :: "int \<Rightarrow> int \<Rightarrow> int" where
  \<comment> \<open>the integer nearest to \<open>a / b\<close>, a tie going to the even one\<close>
  "round_half_even a b =
     (let q = a div b; r = a mod b
      in if b < 2 * r \<or> (2 * r = b \<and> odd q) then q + 1 else q)"

definition round_double :: "int \<Rightarrow> int \<Rightarrow> pyfloat" where
  \<comment> \<open>the binary64 number nearest to \<open>num / den\<close> (round to nearest, ties to even), for
     \<open>num\<close> not negative and \<open>den\<close> above zero\<close>
  "round_double num den =
     (if num \<le> 0 then Fin 0 0
      else let e0 = bitlen num - bitlen den;
               e = (if scale2 den e0 \<le> scale2 num (- e0) then e0 else e0 - 1);
               p = max (e - 52) (- 1074);
               m = round_half_even (scale2 num (- p)) (scale2 den p)
           in if m = 2 ^ 53 then (if 971 \<le> p then Infinity else Fin (2 ^ 52) (p + 1))
              else if 971 < p then Infinity
              else if m = 0 then Fin 0 0
              else Fin m p)"

definition digit_value :: "char \<Rightarrow> int" where
  "digit_value c = of_char c - 48"

definition int_of_digits :: "string \<Rightarrow> int" where
  \<comment> \<open>the number a string of decimal digits writes\<close>
  "int_of_digits ds = foldl (\<lambda>a c. 10 * a + digit_value c) 0 ds"

datatype py_exception = ValueError string | TypeError string | RemoteError string

fun exception_text :: "py_exception \<Rightarrow> string" where
  \<comment> \<open>\<open>str(e)\<close>\<close>
  "exception_text (ValueError t) = t"
| "exception_text (TypeError t) = t"
| "exception_text (RemoteError t) = t"

definition py_float :: "string \<Rightarrow> py_exception + pyfloat" where
  \<comment> \<open>\<open>float(s)\<close> on the literals \<open>digits\<close> and \<open>digits.digits\<close>, the only ones the program
     passes; on other text the model raises, which \<open>float\<close> does not always do\<close>
  "py_float s =
     (let ip = takeWhile py_isdigit s; rest = dropWhile py_isdigit s
      in if ip = [] then Inl (ValueError ''could not convert string to float'')
         else case rest of
           [] \<Rightarrow> Inr (round_double (int_of_digits ip) 1)
         | d # fp \<Rightarrow>
             if d = CHR ''.'' \<and> fp \<noteq> [] \<and> list_all py_isdigit fp
             then Inr (round_double (int_of_digits (ip @ fp)) (10 ^ length fp))
             else Inl (ValueError ''could not convert string to float''))"

definition float_one :: pyfloat where
  \<comment> \<open>the float \<open>1.0\<close>, which the comparison \<open>years != 1\<close> tests for\<close>
  "float_one = Fin (2 ^ 52) (- 52)"

function digits_of :: "int \<Rightarrow> string" where
  \<comment> \<open>the decimal digits of a number that is not negative\<close>
  "digits_of n =
     (if n < 10 then [char_of (48 + n)] else digits_of (n div 10) @ [char_of (48 + n mod 10)])"
  by pat_completeness auto
termination
  by (relation "measure nat") auto

declare digits_of.simps [simp del]

definition float_ratio :: "int \<Rightarrow> int \<Rightarrow> int \<times> int" where
  \<comment> \<open>\<open>m * 2 ^ e\<close> as a fraction\<close>
  "float_ratio m e = (scale2 m e, scale2 1 (- e))"

definition dec_exponent :: "int \<Rightarrow> int \<Rightarrow> int" where
  \<comment> \<open>the \<open>t\<close> with \<open>10 ^ (t - 1) \<le> vn / vd < 10 ^ t\<close>, for \<open>vn\<close> above zero\<close>
  "dec_exponent vn vd =
     (let t0 = declen vn - declen vd
      in if scale10 vd t0 \<le> scale10 vn (- t0) then t0 + 1 else t0)"

definition candidate :: "int \<Rightarrow> int \<Rightarrow> int \<Rightarrow> int \<Rightarrow> int \<Rightarrow> int \<Rightarrow> int option" where
  \<comment> \<open>the \<open>n\<close>-digit decimal \<open>c * 10 ^ (t - n)\<close> nearest to \<open>vn / vd\<close> among the two around it
     that are read back as \<open>Fin m e\<close>, if one is\<close>
  "candidate m e n t vn vd =
     (let a = scale10 vn (n - t); b = scale10 vd (t - n);
          lo = a div b; hi = lo + 1;
          back = (\<lambda>c. round_double (scale10 c (t - n)) (scale10 1 (n - t)) = Fin m e);
          up = (b * (2 * lo + 1) < 2 * a \<or> (b * (2 * lo + 1) = 2 * a \<and> odd lo))
      in if back lo \<and> back hi then Some (if up then hi else lo)
         else if back lo then Some lo
         else if back hi then Some hi
         else None)"

fun shortest :: "int \<Rightarrow> int \<Rightarrow> int \<Rightarrow> int \<Rightarrow> int \<Rightarrow> int list \<Rightarrow> (int \<times> int) option" where
  \<comment> \<open>the first length in the list at which a decimal is read back as the float\<close>
  "shortest m e t vn vd [] = None"
| "shortest m e t vn vd (n # ns) =
     (case candidate m e n t vn vd of
        Some c \<Rightarrow> Some (c, n)
      | None \<Rightarrow> shortest m e t vn vd ns)"

definition strip_zeros :: "string \<Rightarrow> string" where
  "strip_zeros ds = rev (dropWhile (\<lambda>c. c = CHR ''0'') (rev ds))"

definition float_digits :: "int \<Rightarrow> int \<Rightarrow> string \<times> int" where
  \<comment> \<open>the shortest digits \<open>d1 d2 ...\<close> and the exponent \<open>decpt\<close> with
     \<open>0.d1 d2 ... * 10 ^ decpt\<close> read back as the float, for \<open>m\<close> above zero\<close>
  "float_digits m e =
     (let (vn, vd) = float_ratio m e; t = dec_exponent vn vd
      in case shortest m e t vn vd [1, 2, 3, 4, 5, 6, 7, 8, 9, 10, 11, 12, 13, 14, 15, 16, 17] of
           Some (c, n) \<Rightarrow> (strip_zeros (digits_of c), int (length (digits_of c)) + t - n)
         | None \<Rightarrow> (digits_of (round_half_even (scale10 vn (17 - t)) (scale10 vd (t - 17))), t))"

definition float_repr :: "pyfloat \<Rightarrow> string" where
  \<comment> \<open>\<open>repr\<close> of a float, which \<open>str\<close> and an f-string without a format use\<close>
  "float_repr x =
     (case x of
        Infinity \<Rightarrow> ''inf''
      | Fin m e \<Rightarrow>
          if m = 0 then ''0.0''
          else let (ds, decpt) = float_digits m e; n = int (length ds)
               in if decpt \<le> - 4 \<or> 16 < decpt
                  then let x = decpt - 1;
                           xs = digits_of \<bar>x\<bar>
                       in take 1 ds @ (if 1 < n then ''.'' @ drop 1 ds else []) @ ''e'' @
                          (if x < 0 then ''-'' else ''+'') @
                          (if length xs < 2 then ''0'' @ xs else xs)
                  else if decpt \<le> 0 then ''0.'' @ replicate (nat (- decpt)) CHR ''0'' @ ds
                  else if decpt < n then take (nat decpt) ds @ ''.'' @ drop (nat decpt) ds
                  else ds @ replicate (nat (decpt - n)) CHR ''0'' @ ''.0'')"

section \<open>validators.py\<close>

text \<open>
  A parameter that the source tests with \<open>if not text\<close> is a \<^typ>\<open>string option\<close>:
  \<open>None\<close> is Python's \<open>None\<close>, and a result \<open>None\<close> is a returned \<open>None\<close>.
\<close>

definition in_range :: "char \<Rightarrow> char \<Rightarrow> char \<Rightarrow> bool" where
  \<comment> \<open>the range \<open>a-b\<close> of a character class\<close>
  "in_range a b c = ((of_char a :: nat) \<le> of_char c \<and> (of_char c :: nat) \<le> of_char b)"

subsection \<open>EmailValidator\<close>

definition email_local :: "char \<Rightarrow> bool" where
  \<comment> \<open>\<open>[A-Za-z0-9._%+-]\<close>\<close>
  "email_local c =
     (in_range CHR ''A'' CHR ''Z'' c \<or> in_range CHR ''a'' CHR ''z'' c \<or>
      in_range CHR ''0'' CHR ''9'' c \<or> c \<in> set ''._%+-'')"

definition email_domain :: "char \<Rightarrow> bool" where
  \<comment> \<open>\<open>[A-Za-z0-9.-]\<close>\<close>
  "email_domain c =
     (in_range CHR ''A'' CHR ''Z'' c \<or> in_range CHR ''a'' CHR ''z'' c \<or>
      in_range CHR ''0'' CHR ''9'' c \<or> c \<in> set ''.-'')"

definition email_tld :: "char \<Rightarrow> bool" where
  \<comment> \<open>\<open>[A-Z|a-z]\<close>, the bar being a member of the class\<close>
  "email_tld c =
     (in_range CHR ''A'' CHR ''Z'' c \<or> c = CHR ''|'' \<or> in_range CHR ''a'' CHR ''z'' c)"

definition email_pattern :: regex where
  \<comment> \<open>\<open>\b[A-Za-z0-9._%+-]+@[A-Za-z0-9.-]+\.[A-Z|a-z]{2,}\b\<close>\<close>
  "email_pattern =
     Seq Bnd (Seq (Rep email_local 1 None) (Seq (Lit ''@'') (Seq (Rep email_domain 1 None)
       (Seq (Lit ''.'') (Seq (Rep email_tld 2 None) Bnd)))))"

definition extract_email :: "string option \<Rightarrow> string option" where
  "extract_email text =
     (case text of
        None \<Rightarrow> None
      | Some t \<Rightarrow>
          if t = [] then None
          else case re_search email_pattern t of
                 Some m \<Rightarrow> Some (group t m)
               | None \<Rightarrow> None)"

subsection \<open>PhoneValidator\<close>

definition phone_pattern :: regex where
  \<comment> \<open>\<open>[\+]?[1-9]?[0-9]{7,14}\<close>\<close>
  "phone_pattern =
     Seq (Opt (Cls (\<lambda>c. c = CHR ''+''))) (Seq (Opt (Cls (in_range CHR ''1'' CHR ''9'')))
       (Rep (in_range CHR ''0'' CHR ''9'') 7 (Some 14)))"

definition py_remove :: "char \<Rightarrow> string \<Rightarrow> string" where
  \<comment> \<open>\<open>s.replace(c, '')\<close> for a single character \<open>c\<close>\<close>
  "py_remove c s = filter (\<lambda>x. x \<noteq> c) s"

definition extract_phone :: "string option \<Rightarrow> string option" where
  "extract_phone text =
     (case text of
        None \<Rightarrow> None
      | Some t \<Rightarrow>
          if t = [] then None
          else let cleaned_text = py_remove CHR '' '' (py_remove CHR ''-'' t)
               in case re_search phone_pattern cleaned_text of
                    Some m \<Rightarrow> Some (group cleaned_text m)
                  | None \<Rightarrow> None)"

definition phone_shaped :: "string \<Rightarrow> bool" where
  \<comment> \<open>an optional \<open>+\<close>, then 7 to 15 digits, the first of 15 not being \<open>0\<close>\<close>
  "phone_shaped w =
     (let ds = (if w \<noteq> [] \<and> hd w = CHR ''+'' then tl w else w)
      in list_all (in_range CHR ''0'' CHR ''9'') ds \<and> 7 \<le> length ds \<and> length ds \<le> 15 \<and>
         (length ds = 15 \<longrightarrow> hd ds \<noteq> CHR ''0''))"

text \<open>
  The library \<open>phonenumbers\<close> is not part of the repository; \<open>format_phone\<close> takes its three
  functions as a parameter. \<open>parse\<close> gives \<open>None\<close> where the library raises
  \<open>NumberParseException\<close>, the exception the source catches.
\<close>

record 'n phonenumbers =
  parse :: "string \<Rightarrow> string \<Rightarrow> 'n option"
  is_valid_number :: "'n \<Rightarrow> bool"
  format_international :: "'n \<Rightarrow> string"

definition format_phone :: "'n phonenumbers \<Rightarrow> string option \<Rightarrow> string \<Rightarrow> string option" where
  "format_phone lib phone_str region =
     (case phone_str of
        None \<Rightarrow> None
      | Some p \<Rightarrow>
          if p = [] then None
          else case parse lib p region of
                 None \<Rightarrow> Some p
               | Some phone_number \<Rightarrow>
                   if is_valid_number lib phone_number
                   then Some (format_international lib phone_number)
                   else Some p)"

subsection \<open>ExperienceValidator\<close>

definition unit_years :: regex where
  \<comment> \<open>\<open>(?:years?|yrs?)\<close>\<close>
  "unit_years = Alt (Seq (Lit ''year'') (Opt (Lit ''s''))) (Seq (Lit ''yr'') (Opt (Lit ''s'')))"

definition number_part :: regex where
  \<comment> \<open>\<open>\d+(?:\.\d+)?\<close>, the content of the group\<close>
  "number_part = Seq (Rep py_isdigit 1 None) (Opt (Seq (Lit ''.'') (Rep py_isdigit 1 None)))"

definition tail_part :: regex where
  \<comment> \<open>\<open>\s*(?:years?|yrs?)\<close>\<close>
  "tail_part = Seq (Rep py_isspace 0 None) unit_years"

definition experience_pattern :: regex where
  \<comment> \<open>\<open>(\d+(?:\.\d+)?)\s*(?:years?|yrs?)\<close>\<close>
  "experience_pattern = Seq (Grp number_part) tail_part"

definition none_group :: py_exception where
  \<comment> \<open>what using the \<open>None\<close> of a group that took no part in the match raises\<close>
  "none_group = TypeError ''NoneType''"

definition extract_experience :: "string option \<Rightarrow> py_exception + string option" where
  "extract_experience text =
     (case text of
        None \<Rightarrow> Inr None
      | Some t \<Rightarrow>
          if t = [] then Inr None
          else let text_lower = py_lower t
               in case re_search experience_pattern text_lower of
                    None \<Rightarrow> Inr None
                  | Some m \<Rightarrow>
                      (case group1 text_lower m of
                         None \<Rightarrow> Inl none_group
                       | Some g \<Rightarrow>
                           (case py_float g of
                              Inl e \<Rightarrow> Inl e
                            | Inr years \<Rightarrow>
                                Inr (Some (if years \<noteq> float_one then float_repr years @ '' years''
                                           else ''1 year'')))))"

subsection \<open>DataValidator\<close>

definition harmful :: "char \<Rightarrow> bool" where
  \<comment> \<open>the class \<open>[<>"\';]\<close>\<close>
  "harmful c = (c \<in> {CHR ''<'', CHR ''>'', CHR 0x22, CHR 0x27, CHR '';''})"

definition sanitize_input :: "string \<Rightarrow> string" where
  "sanitize_input text =
     (if text = [] then []
      else let sanitized = filter (\<lambda>c. \<not> harmful c) text
           in py_strip sanitized)"

subsection \<open>CandidateDataManager\<close>

text \<open>
  Values of a candidate record. The chatbot stores strings only; the record functions of
  \<open>validators.py\<close> test \<open>isinstance(value, str)\<close>, so the other Python values a caller
  may put into the dict are kept apart from the strings.
\<close>

datatype pyval = PyStr string | PyInt int | PyBool bool | PyNone

type_synonym candidate_info = "string \<rightharpoonup> pyval"

fun sanitize_value :: "pyval \<Rightarrow> pyval" where
  \<comment> \<open>the body of the loop of \<open>sanitize_candidate_data\<close>\<close>
  "sanitize_value (PyStr v) = PyStr (sanitize_input v)"
| "sanitize_value v = v"

definition sanitize_candidate_data :: "candidate_info \<Rightarrow> candidate_info" where
  \<comment> \<open>a new dict with the same keys, each value sent through the loop body\<close>
  "sanitize_candidate_data info = (\<lambda>key. map_option sanitize_value (info key))"

text \<open>
  \<open>export_to_dataframe\<close> assigns into the dict it is given, which the caller still holds.
  Dicts therefore live in a heap, a caller's variable is an address, and the function
  returns the heap it leaves behind. The time of the call is a parameter.
\<close>

type_synonym addr = nat

type_synonym heap = "addr \<Rightarrow> candidate_info"

type_synonym dataframe = "candidate_info list"

definition export_to_dataframe :: "string \<Rightarrow> heap \<Rightarrow> addr \<Rightarrow> heap \<times> dataframe" where
  \<comment> \<open>\<open>now\<close> is \<open>datetime.now().isoformat()\<close>; the frame has one row, a copy of the dict\<close>
  "export_to_dataframe now h candidate_info =
     (let h' = h(candidate_info := (h candidate_info)(''timestamp'' \<mapsto> PyStr now));
          df = [h' candidate_info]
      in (h', df))"

type_synonym files = "string \<rightharpoonup> dataframe"

definition save_to_csv :: "string \<Rightarrow> files \<Rightarrow> heap \<Rightarrow> addr \<Rightarrow> string \<Rightarrow> heap \<times> files \<times> string" where
  \<comment> \<open>a file holds the rows written to it; a missing file is \<open>FileNotFoundError\<close>\<close>
  "save_to_csv now fs h candidate_info filename =
     (let (h', df) = export_to_dataframe now h candidate_info
      in case fs filename of
           Some existing_df \<Rightarrow> (h', fs(filename \<mapsto> existing_df @ df), filename)
         | None \<Rightarrow> (h', fs(filename \<mapsto> df), filename))"

section \<open>chatbot.py\<close>

datatype role = System | User | Assistant

type_synonym message = "role \<times> string"

record chatbot =
  conversation_history :: "message list"
  candidate_info :: candidate_info

definition system_prompt :: string where
  "system_prompt =
     ''\<newline>'' @
     ''        You are a Hiring Assistant chatbot for TalentScout, a recruitment agency specializing in technology placements.\<newline>'' @
     ''\<newline>'' @
     ''        YOUR PURPOSE: Assist in initial screening of candidates by gathering essential information and posing relevant technical questions.\<newline>'' @
     ''\<newline>'' @
     ''        REQUIRED INFORMATION TO COLLECT (in order):\<newline>'' @
     ''        1. Full Name(First name and Last name)\<newline>'' @
     ''        2. Email Address  \<newline>'' @
     ''        3. Phone Number\<newline>'' @
     ''        4. Years of Experience\<newline>'' @
     ''        5. Desired Position(s)\<newline>'' @
     ''        6. Current Location\<newline>'' @
     ''        7. Tech Stack (programming languages, frameworks, databases, tools)\<newline>'' @
     ''\<newline>'' @
     ''        PROCESS:\<newline>'' @
     ''        1. Greet candidate and provide brief overview of your purpose\<newline>'' @
     ''        2. Gather ALL required information systematically\<newline>'' @
     ''        3. Once tech stack is declared, generate 3-5 technical questions tailored to their specified technologies\<newline>'' @
     ''        4. Maintain context throughout conversation\<newline>'' @
     ''        5. If user says goodbye/quit/exit keywords, gracefully conclude with next steps\<newline>'' @
     ''\<newline>'' @
     ''        CONSTRAINTS:\<newline>'' @
     ''        - Stay focused on hiring/recruitment purpose\<newline>'' @
     ''        - Do not deviate from the core functionality\<newline>'' @
     ''        - Keep responses professional and concise\<newline>'' @
     ''        - Handle unexpected inputs with meaningful fallback responses\<newline>'' @
     ''        ''"

definition init_chatbot :: "string option \<Rightarrow> py_exception + chatbot" where
  \<comment> \<open>\<open>__init__\<close>, given the value of the environment variable \<open>GROQ_API_KEY\<close>\<close>
  "init_chatbot api_key =
     (if api_key = None \<or> api_key = Some []
      then Inl (ValueError ''GROQ_API_KEY not found in environment variables'')
      else Inr \<lparr>conversation_history = [], candidate_info = Map.empty\<rparr>)"

definition exit_keywords :: "string list" where
  "exit_keywords =
     [''quit'', ''exit'', ''bye'', ''goodbye'', ''stop'', ''end'', ''finish'', ''done'']"

definition exit_phrases :: "string list" where
  "exit_phrases =
     [''i want to quit'', ''i want to exit'', ''i'' @ [CHR 0x27] @ ''m done'',
      ''that'' @ [CHR 0x27] @ ''s all'', ''end interview'', ''finish interview'',
      ''i have to go'', ''gotta go'']"

definition clean_word :: "string \<Rightarrow> string" where
  \<comment> \<open>\<open>re.sub(r'[^\w]', '', word)\<close>\<close>
  "clean_word word = filter py_isword word"

definition is_exit_keyword :: "string option \<Rightarrow> bool" where
  "is_exit_keyword user_input =
     (case user_input of
        None \<Rightarrow> False
      | Some t \<Rightarrow>
          if t = [] then False
          else let user_lower = py_strip (py_lower t)
               in if user_lower \<in> set exit_keywords then True
                  else if list_ex (\<lambda>word. clean_word word \<in> set exit_keywords) (py_split user_lower)
                  then True
                  else if list_ex (\<lambda>phrase. py_in phrase user_lower) exit_phrases then True
                  else False)"

definition extract_candidate_info :: "chatbot \<Rightarrow> string \<Rightarrow> string \<Rightarrow> py_exception + chatbot" where
  \<comment> \<open>the pattern of the source is that of \<open>ExperienceValidator\<close>, written out again there\<close>
  "extract_candidate_info self user_input bot_response =
     (let user_lower = py_lower user_input;
          info0 = candidate_info self;
          info1 = (if info0 ''email'' = None
                   then (case extract_email (Some user_input) of
                           Some extracted_email \<Rightarrow>
                             if extracted_email \<noteq> [] then info0(''email'' \<mapsto> PyStr extracted_email)
                             else info0
                         | None \<Rightarrow> info0)
                   else info0);
          info2 = (if info1 ''phone'' = None
                   then (case extract_phone (Some user_input) of
                           Some extracted_phone \<Rightarrow>
                             if extracted_phone \<noteq> [] then info1(''phone'' \<mapsto> PyStr extracted_phone)
                             else info1
                         | None \<Rightarrow> info1)
                   else info1)
      in case re_search experience_pattern user_lower of
           None \<Rightarrow> Inr (self\<lparr>candidate_info := info2\<rparr>)
         | Some exp_match \<Rightarrow>
             if info2 ''experience'' = None
             then (case group1 user_lower exp_match of
                     None \<Rightarrow> Inl none_group
                   | Some g \<Rightarrow>
                       Inr (self\<lparr>candidate_info := info2(''experience'' \<mapsto> PyStr (g @ '' years''))\<rparr>))
             else Inr (self\<lparr>candidate_info := info2\<rparr>))"

definition get_farewell_message :: string where
  \<comment> \<open>the two emoji of the text are beyond code point 255 and stand here as their UTF-8
     bytes; nothing reads inside this text\<close>
  "get_farewell_message =
     ''Thank you so much for your time today! '' @
     [CHR 0xF0, CHR 0x9F, CHR 0x99, CHR 0x8F] @
     '' \<newline>'' @
     ''\<newline>'' @
     ''It was wonderful getting to know you and learning about your experience. We'' @
     [CHR 0x27] @
     ''ll carefully review everything we discussed and be in touch within the next few days if your profile aligns with our current opportunities. \<newline>'' @
     ''\<newline>'' @
     ''Best of luck with your job search! '' @
     [CHR 0xF0, CHR 0x9F, CHR 0x8E, CHR 0xAF]"

definition apology :: "string \<Rightarrow> string" where
  \<comment> \<open>the f-string of the \<open>except\<close> clause\<close>
  "apology err =
     ''I apologize, but I'' @ [CHR 0x27] @
     ''m experiencing technical difficulties. Please try again in a moment. Error: '' @ err"

text \<open>
  The Groq service is a parameter: it maps the messages sent to the text of the first
  choice, or to the exception the call raises. \<open>get_response\<close> returns the reply, the
  chatbot it leaves behind and the requests it sent to the service.
\<close>

type_synonym remote = "message list \<Rightarrow> py_exception + string"

definition get_response :: "remote \<Rightarrow> chatbot \<Rightarrow> string \<Rightarrow> string \<times> chatbot \<times> message list list" where
  "get_response groq self user_input =
     (if is_exit_keyword (Some user_input) then (get_farewell_message, self, [])
      else let history = conversation_history self;
               messages = [(System, system_prompt)] @ drop (length history - 12) history @
                          [(User, user_input)]
           in case groq messages of
                Inl e \<Rightarrow> (apology (exception_text e), self, [messages])
              | Inr assistant_response \<Rightarrow>
                  (let self1 = self\<lparr>conversation_history :=
                                history @ [(User, user_input), (Assistant, assistant_response)]\<rparr>
                   in case extract_candidate_info self1 user_input assistant_response of
                        Inl e \<Rightarrow> (apology (exception_text e), self1, [messages])
                      | Inr self2 \<Rightarrow> (assistant_response, self2, [messages])))"

definition outbound :: "chatbot \<Rightarrow> string \<Rightarrow> message list" where
  \<comment> \<open>the messages \<open>get_response\<close> sends: the instructions, the last 12 turns, the input\<close>
  "outbound self user_input =
     [(System, system_prompt)] @
     drop (length (conversation_history self) - 12) (conversation_history self) @
     [(User, user_input)]"

section \<open>app.py\<close>

record session_state =
  messages :: "message list"
  conversation_ended :: bool
  chatbot :: chatbot

definition greeting :: message where
  "greeting =
     (Assistant, ''Hello! Welcome to TalentScout. I'' @ [CHR 0x27] @
        ''m your AI hiring assistant, and I'' @ [CHR 0x27] @
        ''m excited to learn more about you today. Let'' @ [CHR 0x27] @
        ''s start with the basics - could you please tell me your full name?'')"

definition new_chatbot :: chatbot where
  \<comment> \<open>\<open>TalentScoutChatbot()\<close> with the key present, which \<open>main\<close> checks first\<close>
  "new_chatbot = \<lparr>conversation_history = [], candidate_info = Map.empty\<rparr>"

definition initial_session :: session_state where
  "initial_session = \<lparr>messages = [greeting], conversation_ended = False, chatbot = new_chatbot\<rparr>"

datatype event = Prompt string | StartNewInterview | NoInput

definition main :: "remote \<Rightarrow> session_state \<Rightarrow> event \<Rightarrow> session_state \<times> message list list" where
  \<comment> \<open>one run of the script on an initialised session: the state it leaves and the
     requests sent to the service. An ended conversation shows a disabled input, so a
     prompt is read only in the other branch.\<close>
  "main groq st ev =
     (if conversation_ended st
      then (case ev of
              StartNewInterview \<Rightarrow> (initial_session, [])
            | _ \<Rightarrow> (st, []))
      else (case ev of
              Prompt prompt \<Rightarrow>
                (let st1 = st\<lparr>messages := messages st @ [(User, prompt)]\<rparr>
                 in if is_exit_keyword (Some prompt)
                    then (let farewell = get_farewell_message
                          in (st1\<lparr>messages := messages st1 @ [(Assistant, farewell)],
                                  conversation_ended := True\<rparr>, []))
                    else (let (response, bot', sent) = get_response groq (chatbot st1) prompt
                          in (st1\<lparr>messages := messages st1 @ [(Assistant, response)],
                                  chatbot := bot'\<rparr>, sent)))
            | _ \<Rightarrow> (st, [])))"

section \<open>Sample values\<close>

text \<open>Concrete inputs at which the theorems below are evaluated.\<close>

definition one_record :: heap where
  "one_record = (\<lambda>_. Map.empty)(0 := [''email'' \<mapsto> PyStr ''a@b.com''])"

definition failing_lib :: "nat phonenumbers" where
  "failing_lib = \<lparr>parse = (\<lambda>_ _. None), is_valid_number = (\<lambda>_. False), format_international = (\<lambda>_. [])\<rparr>"

definition sample_lib :: "nat phonenumbers" where
  "sample_lib =
     \<lparr>parse = (\<lambda>p region. if p = ''4155552671'' then Some 1 else if p = ''12'' then Some 2 else None),
      is_valid_number = (\<lambda>n. n = 1),
      format_international = (\<lambda>n. ''+1 415-555-2671'')\<rparr>"

definition failing_remote :: remote where
  "failing_remote = (\<lambda>_. Inl (RemoteError ''Connection error.''))"

definition known_email :: chatbot where
  "known_email = \<lparr>conversation_history = [], candidate_info = [''email'' \<mapsto> PyStr ''a@b.com'']\<rparr>"

section \<open>Properties of the text functions\<close>

lemma set_py_strip: "set (py_strip s) \<subseteq> set s"
proof -
  have "set (py_strip s) \<subseteq> set (dropWhile py_isspace s)"
    unfolding py_strip_def using set_dropWhileD by fastforce
  also have "\<dots> \<subseteq> set s"
    using set_dropWhileD by fastforce
  finally show ?thesis .
qed

lemma rstrip_keeps_head:
  assumes "t = [] \<or> \<not> P (hd t)"
  shows "rev (dropWhile P (rev t)) = [] \<or> \<not> P (hd (rev (dropWhile P (rev t))))"
proof -
  define u where "u = rev (dropWhile P (rev t))"
  have "t = u @ rev (takeWhile P (rev t))"
    unfolding u_def by (metis rev_append rev_rev_ident takeWhile_dropWhile_id)
  then have "u \<noteq> [] \<Longrightarrow> hd u = hd t \<and> t \<noteq> []"
    by (metis append_is_Nil_conv hd_append2)
  with assms have "u = [] \<or> \<not> P (hd u)"
    by auto
  then show ?thesis
    unfolding u_def .
qed

lemma dropWhile_fixed: "xs = [] \<or> \<not> P (hd xs) \<Longrightarrow> dropWhile P xs = xs"
  by (cases xs) auto

lemma dropWhile_head: "dropWhile P xs = [] \<or> \<not> P (hd (dropWhile P xs))"
  by (metis hd_dropWhile)

lemma py_strip_idem: "py_strip (py_strip s) = py_strip s"
proof -
  define t where "t = dropWhile py_isspace s"
  define u where "u = rev (dropWhile py_isspace (rev t))"
  have t: "t = [] \<or> \<not> py_isspace (hd t)"
    unfolding t_def by (rule dropWhile_head)
  have u: "u = [] \<or> \<not> py_isspace (hd u)"
    unfolding u_def using t by (rule rstrip_keeps_head)
  have 1: "dropWhile py_isspace u = u"
    using u by (rule dropWhile_fixed)
  have 2: "dropWhile py_isspace (rev u) = rev u"
    unfolding u_def rev_rev_ident
    by (rule dropWhile_fixed) (rule dropWhile_head)
  have "py_strip s = u"
    by (simp add: py_strip_def t_def u_def)
  moreover have "py_strip u = u"
    by (simp add: py_strip_def 1 2)
  ultimately show ?thesis by simp
qed

lemma filter_py_strip_filter:
  "filter Q (py_strip (filter Q s)) = py_strip (filter Q s)"
proof -
  have "\<forall>c \<in> set (py_strip (filter Q s)). Q c"
    using set_py_strip [of "filter Q s"] by auto
  then show ?thesis by (simp add: filter_id_conv)
qed

lemma sanitize_value_idem: "sanitize_value (sanitize_value v) = sanitize_value v"
proof (cases v)
  case (PyStr s)
  have "sanitize_input (sanitize_input s) = sanitize_input s"
    by (simp add: sanitize_input_def Let_def filter_py_strip_filter py_strip_idem)
  then show ?thesis using PyStr by simp
qed simp_all

section \<open>The matcher and the words of a pattern\<close>

lemma starts_with_iff: "starts_with w x \<longleftrightarrow> take (length w) x = w"
  by (induction w x rule: starts_with.induct) auto

lemma le_length_takeWhile:
  "k \<le> length (takeWhile p xs) \<longleftrightarrow> k \<le> length xs \<and> list_all p (take k xs)"
proof (induction xs arbitrary: k)
  case Nil
  show ?case by simp
next
  case (Cons x xs)
  show ?case
    by (cases k) (simp_all add: Cons.IH)
qed

lemma slice_length: "j \<le> length s \<Longrightarrow> length (slice s i j) = j - i"
  by (simp add: slice_def)

lemma take_slice: "n \<le> j - i \<Longrightarrow> take n (slice s i j) = slice s i (i + n)"
  by (simp add: slice_def min_def)

lemma drop_slice: "drop n (slice s i j) = slice s (i + n) j"
  by (simp add: slice_def drop_take add.commute)

lemma slice_same: "slice s i i = []"
  by (simp add: slice_def)

lemma slice_one: "i < length s \<Longrightarrow> slice s i (Suc i) = [s ! i]"
  by (simp add: slice_def take_Suc_conv_app_nth hd_drop_conv_nth take_Suc)

lemma in_matches_Rep:
  "(j, c') \<in> set (matches (Rep p lo hi) s (i, c)) \<longleftrightarrow>
     c' = c \<and> i \<le> j \<and> lo \<le> j - i \<and> j - i \<le> length (takeWhile p (drop i s)) \<and>
     (case hi of None \<Rightarrow> True | Some h \<Rightarrow> j - i \<le> h)"
  by (cases hi) (auto simp: Let_def image_iff)

lemma slice_empty_iff: "i \<le> j \<Longrightarrow> j \<le> length s \<Longrightarrow> slice s i j = [] \<longleftrightarrow> j = i"
  by (auto simp: slice_def)

lemma in_matches_Grp:
  "(j, c') \<in> set (matches (Grp a) s (i, c)) \<longleftrightarrow>
     c' = Some (i, j) \<and> (\<exists>c1. (j, c1) \<in> set (matches a s (i, c)))"
  by force

lemma accepts_Seq_iff:
  "accepts (Seq a b) w \<longleftrightarrow> (\<exists>n\<le>length w. accepts a (take n w) \<and> accepts b (drop n w))"
  by (auto simp: list_ex_iff less_Suc_eq_le simp del: upt_Suc)

declare accepts.simps(4) [simp del]

lemma matches_accepts:
  assumes "bnd_free r" and "i \<le> length s"
  shows "(\<exists>c'. (j, c') \<in> set (matches r s (i, c))) \<longleftrightarrow>
         i \<le> j \<and> j \<le> length s \<and> accepts r (slice s i j)"
  using assms
proof (induction r arbitrary: i j c)
  case (Cls p)
  show ?case
  proof (cases "i < length s")
    case True
    show ?thesis
    proof
      assume "\<exists>c'. (j, c') \<in> set (matches (Cls p) s (i, c))"
      then have "p (s ! i)" "j = Suc i"
        by (auto split: if_splits)
      with True show "i \<le> j \<and> j \<le> length s \<and> accepts (Cls p) (slice s i j)"
        by (simp add: slice_one)
    next
      assume a: "i \<le> j \<and> j \<le> length s \<and> accepts (Cls p) (slice s i j)"
      then have "j - i = 1"
        using slice_length [of j s i] by simp
      then have "j = Suc i" by simp
      with a True show "\<exists>c'. (j, c') \<in> set (matches (Cls p) s (i, c))"
        by (simp add: slice_one)
    qed
  next
    case False
    then have "length (slice s i j) = 0"
      using Cls by (simp add: slice_def)
    with False show ?thesis by simp
  qed
next
  case (Lit v)
  show ?case
  proof
    assume "\<exists>c'. (j, c') \<in> set (matches (Lit v) s (i, c))"
    then have t: "take (length v) (drop i s) = v" and j: "j = i + length v"
      by (auto simp: starts_with_iff split: if_splits)
    from t have "length (take (length v) (drop i s)) = length v"
      by simp
    then have "length v \<le> length s - i"
      by simp
    with Lit.prems j t show "i \<le> j \<and> j \<le> length s \<and> accepts (Lit v) (slice s i j)"
      by (simp add: slice_def)
  next
    assume a: "i \<le> j \<and> j \<le> length s \<and> accepts (Lit v) (slice s i j)"
    then have "length v = j - i"
      using slice_length [of j s i] by simp
    with a show "\<exists>c'. (j, c') \<in> set (matches (Lit v) s (i, c))"
      by (simp add: starts_with_iff slice_def)
  qed
next
  case (Rep p lo hi)
  have "(\<exists>c'. (j, c') \<in> set (matches (Rep p lo hi) s (i, c))) \<longleftrightarrow>
      i \<le> j \<and> lo \<le> j - i \<and> (j - i \<le> length s - i \<and> list_all p (slice s i j)) \<and>
      (case hi of None \<Rightarrow> True | Some h \<Rightarrow> j - i \<le> h)"
    unfolding in_matches_Rep le_length_takeWhile by (simp add: slice_def)
  also have "\<dots> \<longleftrightarrow> i \<le> j \<and> j \<le> length s \<and> accepts (Rep p lo hi) (slice s i j)"
    using Rep.prems slice_length [of j s i] by (cases hi) auto
  finally show ?case .
next
  case (Seq a b)
  have "(\<exists>c'. (j, c') \<in> set (matches (Seq a b) s (i, c))) \<longleftrightarrow>
      (\<exists>k c1. (k, c1) \<in> set (matches a s (i, c)) \<and> (\<exists>c'. (j, c') \<in> set (matches b s (k, c1))))"
    by auto
  also have "\<dots> \<longleftrightarrow> (\<exists>k. (i \<le> k \<and> k \<le> length s \<and> accepts a (slice s i k)) \<and>
      (k \<le> j \<and> j \<le> length s \<and> accepts b (slice s k j)))"
  proof
    assume "\<exists>k c1. (k, c1) \<in> set (matches a s (i, c)) \<and> (\<exists>c'. (j, c') \<in> set (matches b s (k, c1)))"
    then obtain k c1 where 1: "(k, c1) \<in> set (matches a s (i, c))"
      and 2: "\<exists>c'. (j, c') \<in> set (matches b s (k, c1))"
      by blast
    from 1 have 3: "i \<le> k \<and> k \<le> length s \<and> accepts a (slice s i k)"
      using Seq.IH(1) [of i k c] Seq.prems by auto
    then have "k \<le> j \<and> j \<le> length s \<and> accepts b (slice s k j)"
      using Seq.IH(2) [of k j c1] Seq.prems 2 by auto
    with 3 show "\<exists>k. (i \<le> k \<and> k \<le> length s \<and> accepts a (slice s i k)) \<and>
      (k \<le> j \<and> j \<le> length s \<and> accepts b (slice s k j))"
      by blast
  next
    assume "\<exists>k. (i \<le> k \<and> k \<le> length s \<and> accepts a (slice s i k)) \<and>
      (k \<le> j \<and> j \<le> length s \<and> accepts b (slice s k j))"
    then obtain k where 3: "i \<le> k \<and> k \<le> length s \<and> accepts a (slice s i k)"
      and 4: "k \<le> j \<and> j \<le> length s \<and> accepts b (slice s k j)"
      by blast
    from 3 obtain c1 where 1: "(k, c1) \<in> set (matches a s (i, c))"
      using Seq.IH(1) [of i k c] Seq.prems by auto
    from 3 4 have "\<exists>c'. (j, c') \<in> set (matches b s (k, c1))"
      using Seq.IH(2) [of k j c1] Seq.prems by auto
    with 1 show "\<exists>k c1. (k, c1) \<in> set (matches a s (i, c)) \<and> (\<exists>c'. (j, c') \<in> set (matches b s (k, c1)))"
      by blast
  qed
  also have "\<dots> \<longleftrightarrow> i \<le> j \<and> j \<le> length s \<and> accepts (Seq a b) (slice s i j)"
  proof
    assume "\<exists>k. (i \<le> k \<and> k \<le> length s \<and> accepts a (slice s i k)) \<and>
      (k \<le> j \<and> j \<le> length s \<and> accepts b (slice s k j))"
    then obtain k where k: "i \<le> k" "k \<le> j" "j \<le> length s" "accepts a (slice s i k)"
      "accepts b (slice s k j)"
      by blast
    have "take (k - i) (slice s i j) = slice s i k" "drop (k - i) (slice s i j) = slice s k j"
      using k take_slice [of "k - i" j i s] drop_slice [of "k - i" s i j] by simp_all
    moreover have "k - i \<le> length (slice s i j)"
      using k(1-3) by (simp add: slice_length)
    ultimately have "accepts (Seq a b) (slice s i j)"
      using k(4,5) unfolding accepts_Seq_iff by metis
    with k show "i \<le> j \<and> j \<le> length s \<and> accepts (Seq a b) (slice s i j)"
      by simp
  next
    assume a: "i \<le> j \<and> j \<le> length s \<and> accepts (Seq a b) (slice s i j)"
    then obtain n where n: "n \<le> j - i" "accepts a (take n (slice s i j))"
      "accepts b (drop n (slice s i j))"
      unfolding accepts_Seq_iff using slice_length [of j s i] by auto
    have "take n (slice s i j) = slice s i (i + n)" "drop n (slice s i j) = slice s (i + n) j"
      using n take_slice [of n j i s] drop_slice [of n s i j] by simp_all
    moreover have "i + n \<le> j"
      using n(1) a by arith
    ultimately show "\<exists>k. (i \<le> k \<and> k \<le> length s \<and> accepts a (slice s i k)) \<and>
      (k \<le> j \<and> j \<le> length s \<and> accepts b (slice s k j))"
      using n a by (intro exI [of _ "i + n"]) simp
  qed
  finally show ?case .
next
  case (Alt a b)
  have "(\<exists>c'. (j, c') \<in> set (matches (Alt a b) s (i, c))) \<longleftrightarrow>
      (\<exists>c'. (j, c') \<in> set (matches a s (i, c))) \<or> (\<exists>c'. (j, c') \<in> set (matches b s (i, c)))"
    by auto
  then show ?case
    using Alt.IH(1) [of i j c] Alt.IH(2) [of i j c] Alt.prems by auto
next
  case (Opt a)
  have "(\<exists>c'. (j, c') \<in> set (matches (Opt a) s (i, c))) \<longleftrightarrow>
      (\<exists>c'. (j, c') \<in> set (matches a s (i, c))) \<or> j = i"
    by auto
  also have "\<dots> \<longleftrightarrow> (i \<le> j \<and> j \<le> length s \<and> accepts a (slice s i j)) \<or> j = i"
    using Opt.IH [of i j c] Opt.prems by simp
  also have "\<dots> \<longleftrightarrow> i \<le> j \<and> j \<le> length s \<and> accepts (Opt a) (slice s i j)"
    using Opt.prems slice_empty_iff [of i j s] by auto
  finally show ?case .
next
  case (Grp a)
  have "(\<exists>c'. (j, c') \<in> set (matches (Grp a) s (i, c))) \<longleftrightarrow>
      (\<exists>c'. (j, c') \<in> set (matches a s (i, c)))"
    unfolding in_matches_Grp by simp
  then show ?case
    using Grp.IH [of i j c] Grp.prems by simp
next
  case Bnd
  then show ?case by simp
qed


lemma grp_free_capture:
  "grp_free r \<Longrightarrow> (j, c') \<in> set (matches r s (i, c)) \<Longrightarrow> c' = c"
proof (induction r arbitrary: i j c c')
  case (Rep p lo hi)
  from Rep.prems(2) show ?case
    unfolding in_matches_Rep by simp
next
  case (Seq a b)
  from Seq.prems(2) obtain k c1 where "(k, c1) \<in> set (matches a s (i, c))"
    and "(j, c') \<in> set (matches b s (k, c1))"
    by auto
  with Seq.IH [of _ _ _ _] Seq.prems(1) show ?case
    by (metis grp_free.simps(2))
next
  case (Alt a b)
  then show ?case by auto
next
  case (Opt a)
  then show ?case by auto
qed (auto split: if_splits)

lemma scan_None_iff: "scan r s is = None \<longleftrightarrow> (\<forall>i\<in>set is. matches r s (i, None) = [])"
  by (induction "is") (auto split: list.splits)

lemma scan_upt_Some:
  "scan r s [a ..< b] = Some m \<Longrightarrow>
     a \<le> m_start m \<and> m_start m < b \<and>
     (\<forall>i. a \<le> i \<and> i < m_start m \<longrightarrow> matches r s (i, None) = []) \<and>
     (\<exists>rest. matches r s (m_start m, None) = (m_end m, m_group1 m) # rest)"
proof (induction "b - a" arbitrary: a)
  case 0
  then show ?case by simp
next
  case (Suc n)
  then have ab: "a < b" and upt: "[a ..< b] = a # [Suc a ..< b]"
    by (simp_all add: upt_conv_Cons)
  show ?case
  proof (cases "matches r s (a, None)")
    case Nil
    then have "scan r s [Suc a ..< b] = Some m"
      using Suc.prems upt by simp
    moreover have "n = b - Suc a"
      using Suc.hyps(2) by simp
    ultimately have ih: "Suc a \<le> m_start m \<and> m_start m < b \<and>
        (\<forall>i. Suc a \<le> i \<and> i < m_start m \<longrightarrow> matches r s (i, None) = []) \<and>
        (\<exists>rest. matches r s (m_start m, None) = (m_end m, m_group1 m) # rest)"
      using Suc.hyps(1) by blast
    have "matches r s (i, None) = []" if "a \<le> i" "i < m_start m" for i
      using that ih Nil by (cases "i = a") auto
    with ih show ?thesis by auto
  next
    case (Cons x xs)
    then have "m = \<lparr>m_start = a, m_end = fst x, m_group1 = snd x\<rparr>"
      using Suc.prems upt by (cases x) auto
    with Cons ab show ?thesis by auto
  qed
qed

lemma slice_decompose:
  "i \<le> j \<Longrightarrow> j \<le> length s \<Longrightarrow> s = take i s @ slice s i j @ drop j s"
proof -
  assume a: "i \<le> j" "j \<le> length s"
  have "drop i s = take (j - i) (drop i s) @ drop (j - i) (drop i s)"
    by (rule append_take_drop_id [symmetric])
  also have "drop (j - i) (drop i s) = drop j s"
    using a by simp
  finally have "drop i s = slice s i j @ drop j s"
    by (simp add: slice_def)
  then show ?thesis
    by (metis append_take_drop_id)
qed

lemma slice_of_decomposition:
  "slice (pre @ w @ post) (length pre) (length pre + length w) = w"
  by (simp add: slice_def)

lemma re_search_None_iff:
  assumes "bnd_free r"
  shows "re_search r s = None \<longleftrightarrow> \<not> (\<exists>pre w post. s = pre @ w @ post \<and> accepts r w)"
proof
  assume n: "re_search r s = None"
  show "\<not> (\<exists>pre w post. s = pre @ w @ post \<and> accepts r w)"
  proof
    assume "\<exists>pre w post. s = pre @ w @ post \<and> accepts r w"
    then obtain pre w post where d: "s = pre @ w @ post" and w: "accepts r w"
      by blast
    have "length pre \<le> length s" "length pre + length w \<le> length s"
      using d by simp_all
    moreover have "accepts r (slice s (length pre) (length pre + length w))"
      using w d slice_of_decomposition by simp
    ultimately have "\<exists>c'. (length pre + length w, c') \<in> set (matches r s (length pre, None))"
      using matches_accepts [OF assms, of "length pre" s "length pre + length w" None] by simp
    moreover have "matches r s (length pre, None) = []"
      using n \<open>length pre \<le> length s\<close> unfolding re_search_def scan_None_iff
      by (simp del: upt_Suc)
    ultimately show False by simp
  qed
next
  assume n: "\<not> (\<exists>pre w post. s = pre @ w @ post \<and> accepts r w)"
  have "matches r s (i, None) = []" if "i \<le> length s" for i
  proof (rule ccontr)
    assume "matches r s (i, None) \<noteq> []"
    then obtain j c' where "(j, c') \<in> set (matches r s (i, None))"
      by (cases "matches r s (i, None)") auto
    then have "i \<le> j \<and> j \<le> length s \<and> accepts r (slice s i j)"
      using matches_accepts [OF assms that, of j None] by blast
    then show False
      using n slice_decompose [of i j s] by metis
  qed
  then show "re_search r s = None"
    unfolding re_search_def scan_None_iff by (simp del: upt_Suc)
qed

lemma re_search_Some:
  assumes "bnd_free r" and "re_search r s = Some m"
  shows "\<exists>pre post. s = pre @ group s m @ post \<and> length pre = m_start m \<and>
           accepts r (group s m) \<and>
           (\<forall>pre' w post'. s = pre' @ w @ post' \<and> accepts r w \<longrightarrow> length pre \<le> length pre')"
proof -
  from assms(2) have st: "m_start m \<le> length s"
    and none: "\<forall>i. i < m_start m \<longrightarrow> matches r s (i, None) = []"
    and hd: "\<exists>rest. matches r s (m_start m, None) = (m_end m, m_group1 m) # rest"
    unfolding re_search_def using scan_upt_Some [of r s 0 "Suc (length s)" m] by auto
  from hd have "\<exists>c'. (m_end m, c') \<in> set (matches r s (m_start m, None))"
    by auto
  then have acc: "m_start m \<le> m_end m \<and> m_end m \<le> length s \<and> accepts r (group s m)"
    using matches_accepts [OF assms(1) st, of "m_end m" None] by (simp add: group_def)
  have left: "m_start m \<le> length pre'" if "s = pre' @ w @ post'" "accepts r w" for pre' w post'
  proof (rule ccontr)
    assume "\<not> m_start m \<le> length pre'"
    then have lt: "length pre' < m_start m" by simp
    have "accepts r (slice s (length pre') (length pre' + length w))"
      using that slice_of_decomposition by simp
    moreover have "length pre' \<le> length s" "length pre' + length w \<le> length s"
      using that by simp_all
    ultimately have "\<exists>c'. (length pre' + length w, c') \<in> set (matches r s (length pre', None))"
      using matches_accepts [OF assms(1), of "length pre'" s "length pre' + length w" None] by simp
    then show False
      using none lt by auto
  qed
  have "s = take (m_start m) s @ group s m @ drop (m_end m) s"
    using acc slice_decompose [of "m_start m" "m_end m" s] by (simp add: group_def)
  moreover have "length (take (m_start m) s) = m_start m"
    using st by simp
  ultimately show ?thesis
    using acc left by metis
qed

lemma in_matches_Seq:
  "(j, c') \<in> set (matches (Seq a b) s ic) \<longleftrightarrow>
     (\<exists>k c1. (k, c1) \<in> set (matches a s ic) \<and> (j, c') \<in> set (matches b s (k, c1)))"
  by auto

lemma bnd_free_patterns:
  "bnd_free number_part" "bnd_free tail_part" "bnd_free experience_pattern" "bnd_free phone_pattern"
  by (simp_all add: number_part_def tail_part_def experience_pattern_def phone_pattern_def
      unit_years_def)

lemma grp_free_tail_part: "grp_free tail_part"
  by (simp add: tail_part_def unit_years_def)

lemma experience_group:
  assumes "(j, c') \<in> set (matches experience_pattern s (i, c))" and "i \<le> length s"
  shows "\<exists>k. c' = Some (i, k) \<and> i \<le> k \<and> k \<le> j \<and> j \<le> length s \<and>
           accepts number_part (slice s i k) \<and> accepts tail_part (slice s k j)"
proof -
  from assms(1) obtain k c1 where 1: "(k, c1) \<in> set (matches (Grp number_part) s (i, c))"
    and 2: "(j, c') \<in> set (matches tail_part s (k, c1))"
    unfolding experience_pattern_def in_matches_Seq by blast
  from 1 have c1: "c1 = Some (i, k)" and 3: "\<exists>c2. (k, c2) \<in> set (matches number_part s (i, c))"
    unfolding in_matches_Grp by simp_all
  from 3 have n: "i \<le> k \<and> k \<le> length s \<and> accepts number_part (slice s i k)"
    using matches_accepts [OF bnd_free_patterns(1) assms(2), of k c] by simp
  from 2 have "c' = c1"
    using grp_free_capture [OF grp_free_tail_part] by blast
  moreover from 2 n have "k \<le> j \<and> j \<le> length s \<and> accepts tail_part (slice s k j)"
    using matches_accepts [OF bnd_free_patterns(2), of k s j c1] by blast
  ultimately show ?thesis
    using c1 n by blast
qed

lemma experience_search:
  assumes "re_search experience_pattern s = Some m"
  shows "\<exists>k. m_group1 m = Some (m_start m, k) \<and> m_start m \<le> k \<and> k \<le> m_end m \<and>
           m_end m \<le> length s \<and> accepts number_part (slice s (m_start m) k) \<and>
           accepts tail_part (slice s k (m_end m))"
proof -
  from assms have st: "m_start m \<le> length s"
    and hd: "\<exists>rest. matches experience_pattern s (m_start m, None) = (m_end m, m_group1 m) # rest"
    unfolding re_search_def using scan_upt_Some [of experience_pattern s 0 "Suc (length s)" m]
    by auto
  from hd have "(m_end m, m_group1 m) \<in> set (matches experience_pattern s (m_start m, None))"
    by auto
  then show ?thesis
    using experience_group [OF _ st] by blast
qed

lemma experience_group1:
  assumes "re_search experience_pattern s = Some m"
  shows "\<exists>g. group1 s m = Some g \<and> accepts number_part g"
  using experience_search [OF assms] by (auto simp: group1_def)

section \<open>Claims\<close>

text \<open>
  C9. Sanitization is idempotent: for every string \<open>s\<close>,
  \<open>sanitize_input (sanitize_input s) = sanitize_input s\<close>, and applying
  \<open>sanitize_candidate_data\<close> twice to any record gives the same record as applying it once.
\<close>

theorem sanitize_idempotent:
  "sanitize_input (sanitize_input s) = sanitize_input s \<and>
   sanitize_candidate_data (sanitize_candidate_data info) = sanitize_candidate_data info"
proof
  show "sanitize_input (sanitize_input s) = sanitize_input s"
    by (simp add: sanitize_input_def Let_def filter_py_strip_filter py_strip_idem)
  show "sanitize_candidate_data (sanitize_candidate_data info) = sanitize_candidate_data info"
    by (rule ext)
      (simp add: sanitize_candidate_data_def option.map_comp comp_def sanitize_value_idem)
qed

text \<open>
  C10. Export mutates the caller's record in place: \<open>export_to_dataframe\<close>, and therefore
  \<open>save_to_csv\<close>, adds the key \<open>timestamp\<close> to the dict at the caller's address; every other
  key of that dict, and every other dict, is unchanged.
\<close>

theorem export_mutates_callers_record:
  "fst (save_to_csv now fs h a filename) = fst (export_to_dataframe now h a) \<and>
   (let h' = fst (export_to_dataframe now h a)
    in h' a ''timestamp'' = Some (PyStr now) \<and>
       (\<forall>k. k \<noteq> ''timestamp'' \<longrightarrow> h' a k = h a k) \<and>
       (\<forall>b. b \<noteq> a \<longrightarrow> h' b = h b) \<and>
       snd (export_to_dataframe now h a) = [h' a])"
  by (simp add: save_to_csv_def export_to_dataframe_def Let_def split: option.splits)

theorem export_mutates_callers_record_witness:
  "fst (export_to_dataframe ''2024-01-01T00:00:00'' one_record 0) 0 ''timestamp'' =
     Some (PyStr ''2024-01-01T00:00:00'') \<and>
   fst (save_to_csv ''2024-01-01T00:00:00'' Map.empty one_record 0 ''candidates.csv'') 0 ''timestamp'' =
     Some (PyStr ''2024-01-01T00:00:00'') \<and>
   one_record 0 ''timestamp'' = None \<and>
   fst (export_to_dataframe ''2024-01-01T00:00:00'' one_record 0) 0 ''email'' = Some (PyStr ''a@b.com'') \<and>
   fst (export_to_dataframe ''2024-01-01T00:00:00'' one_record 0) 1 = one_record 1"
  using export_mutates_callers_record [of "''2024-01-01T00:00:00''" Map.empty one_record 0 "''candidates.csv''"]
  by (simp add: Let_def one_record_def)

text \<open>
  C8, as stated, fails on the empty string: \<open>format_phone\<close> returns \<open>None\<close> for it, not the
  input.
\<close>

theorem format_phone_empty_counterexample:
  "format_phone failing_lib (Some []) ''US'' \<noteq> Some []"
  by (simp add: format_phone_def)

text \<open>
  C8, amended. \<open>format_phone\<close> never raises. For an absent or empty input it returns
  \<open>None\<close>. For any other input it returns the input unchanged when parsing fails or the
  parsed number is invalid, and the international rendering only when the number parses
  and is valid.
\<close>

theorem format_phone_cases:
  "format_phone lib None region = None \<and>
   format_phone lib (Some []) region = None \<and>
   (p \<noteq> [] \<and> parse lib p region = None \<longrightarrow> format_phone lib (Some p) region = Some p) \<and>
   (p \<noteq> [] \<and> parse lib p region = Some n \<and> \<not> is_valid_number lib n \<longrightarrow>
      format_phone lib (Some p) region = Some p) \<and>
   (p \<noteq> [] \<and> parse lib p region = Some n \<and> is_valid_number lib n \<longrightarrow>
      format_phone lib (Some p) region = Some (format_international lib n))"
  by (simp add: format_phone_def)

theorem format_phone_cases_witness:
  "format_phone sample_lib (Some ''abc'') ''US'' = Some ''abc'' \<and>
   format_phone sample_lib (Some ''12'') ''US'' = Some ''12'' \<and>
   format_phone sample_lib (Some ''4155552671'') ''US'' = Some ''+1 415-555-2671''"
  using format_phone_cases [of sample_lib "''US''" "''abc''" 0]
    format_phone_cases [of sample_lib "''US''" "''12''" 2]
    format_phone_cases [of sample_lib "''US''" "''4155552671''" 1]
  by (simp add: sample_lib_def)

lemma sublist_apology_text: "sublist ''technical difficulties'' (apology err)"
proof -
  have "apology err = (''I apologize, but I'' @ [CHR 0x27] @ ''m experiencing '') @
      ''technical difficulties'' @ (''. Please try again in a moment. Error: '' @ err)"
    by (simp add: apology_def)
  then show ?thesis
    unfolding sublist_def by blast
qed

lemma sublist_apology_err: "sublist err (apology err)"
proof -
  have "apology err = (''I apologize, but I'' @ [CHR 0x27] @
     ''m experiencing technical difficulties. Please try again in a moment. Error: '') @ err @ []"
    by (simp add: apology_def)
  then show ?thesis
    unfolding sublist_def by blast
qed

lemma get_response_failure:
  assumes "\<not> is_exit_keyword (Some user_input)"
    and "groq (outbound self user_input) = Inl e"
  shows "get_response groq self user_input =
     (apology (exception_text e), self, [outbound self user_input])"
  using assms by (simp add: get_response_def outbound_def Let_def)

text \<open>
  C5. For a user input that is not exit-classified, if the remote call raises then
  \<open>get_response\<close> returns a text containing "technical difficulties" and the text of the
  exception, the chatbot (history and candidate record) is unchanged, and the conversation
  of \<open>main\<close> is not ended.
\<close>

theorem remote_failure_keeps_state:
  assumes "\<not> is_exit_keyword (Some user_input)"
    and "groq (outbound self user_input) = Inl e"
  shows "get_response groq self user_input =
           (apology (exception_text e), self, [outbound self user_input]) \<and>
         sublist ''technical difficulties'' (apology (exception_text e)) \<and>
         sublist (exception_text e) (apology (exception_text e)) \<and>
         (\<not> conversation_ended st \<and> chatbot st = self \<longrightarrow>
            \<not> conversation_ended (fst (main groq st (Prompt user_input))) \<and>
            chatbot (fst (main groq st (Prompt user_input))) = self)"
proof -
  have g: "get_response groq self user_input =
     (apology (exception_text e), self, [outbound self user_input])"
    using assms by (rule get_response_failure)
  have "\<not> conversation_ended (fst (main groq st (Prompt user_input))) \<and>
        chatbot (fst (main groq st (Prompt user_input))) = self"
    if "\<not> conversation_ended st" "chatbot st = self"
    using that assms(1) g by (simp add: main_def Let_def)
  then show ?thesis
    using g sublist_apology_text sublist_apology_err by blast
qed

theorem remote_failure_keeps_state_witness:
  "get_response failing_remote new_chatbot ''hello'' =
     (apology ''Connection error.'', new_chatbot, [outbound new_chatbot ''hello'']) \<and>
   \<not> conversation_ended (fst (main failing_remote initial_session (Prompt ''hello''))) \<and>
   chatbot (fst (main failing_remote initial_session (Prompt ''hello''))) = new_chatbot"
proof -
  have 1: "\<not> is_exit_keyword (Some ''hello'')"
    by code_simp
  have 2: "failing_remote (outbound new_chatbot ''hello'') = Inl (RemoteError ''Connection error.'')"
    by (simp add: failing_remote_def)
  show ?thesis
    using 1 2 remote_failure_keeps_state [where user_input = "''hello''" and groq = failing_remote
        and self = new_chatbot and e = "RemoteError ''Connection error.''" and st = initial_session]
    by (simp add: initial_session_def)
qed

text \<open>
  C6. For a user input classified as exit-intent, \<open>get_response\<close> returns the farewell
  message, sends nothing to the remote service and leaves the chatbot (history and
  candidate record) unchanged; \<open>main\<close> ends the conversation, and an ended conversation
  reads no further prompt.
\<close>

theorem exit_returns_farewell:
  assumes "is_exit_keyword (Some user_input)"
  shows "get_response groq self user_input = (get_farewell_message, self, []) \<and>
         (\<not> conversation_ended st \<longrightarrow>
            main groq st (Prompt user_input) =
              (st\<lparr>messages := messages st @ [(User, user_input), (Assistant, get_farewell_message)],
                  conversation_ended := True\<rparr>, [])) \<and>
         (conversation_ended st \<longrightarrow> main groq st (Prompt p) = (st, []) \<and> main groq st NoInput = (st, []))"
  using assms by (simp add: get_response_def main_def Let_def)

theorem exit_returns_farewell_witness:
  "get_response failing_remote new_chatbot ''bye'' = (get_farewell_message, new_chatbot, []) \<and>
   main failing_remote initial_session (Prompt ''bye'') =
     (\<lparr>messages = [greeting, (User, ''bye''), (Assistant, get_farewell_message)],
       conversation_ended = True, chatbot = new_chatbot\<rparr>, []) \<and>
   main failing_remote (fst (main failing_remote initial_session (Prompt ''bye''))) (Prompt ''hello'') =
     (fst (main failing_remote initial_session (Prompt ''bye'')), [])"
proof -
  have 1: "is_exit_keyword (Some ''bye'')"
    by code_simp
  have 2: "\<not> conversation_ended initial_session"
    by (simp add: initial_session_def)
  have 3: "conversation_ended (fst (main failing_remote initial_session (Prompt ''bye'')))"
    using exit_returns_farewell [OF 1, of failing_remote new_chatbot initial_session] 2 by simp
  show ?thesis
    using exit_returns_farewell [OF 1, of failing_remote new_chatbot initial_session] 2
      exit_returns_farewell [OF 1, of failing_remote new_chatbot
        "fst (main failing_remote initial_session (Prompt ''bye''))" "''hello''"] 3
    by (simp add: initial_session_def)
qed

text \<open>
  C2. The merge is first-write-wins and monotone: for every chatbot and utterance
  \<open>extract_candidate_info\<close> returns without raising, keeps every key of the candidate record
  with its value, and adds no key other than \<open>email\<close>, \<open>phone\<close> and \<open>experience\<close>; so an email
  once set stays when a later utterance contains another one.
\<close>

theorem merge_first_write_wins:
  "\<exists>self'. extract_candidate_info self user_input bot_response = Inr self' \<and>
     conversation_history self' = conversation_history self \<and>
     (\<forall>k v. candidate_info self k = Some v \<longrightarrow> candidate_info self' k = Some v) \<and>
     (\<forall>k. candidate_info self k = None \<and> candidate_info self' k \<noteq> None \<longrightarrow>
          k = ''email'' \<or> k = ''phone'' \<or> k = ''experience'')"
proof (cases "re_search experience_pattern (py_lower user_input)")
  case None
  then show ?thesis
    by (auto simp: extract_candidate_info_def Let_def split: option.splits)
next
  case (Some m)
  then obtain g where "group1 (py_lower user_input) m = Some g"
    using experience_group1 by blast
  with Some show ?thesis
    by (auto simp: extract_candidate_info_def Let_def split: option.splits)
qed

theorem merge_first_write_wins_witness:
  "extract_email (Some ''write to c@d.org'') = Some ''c@d.org'' \<and>
   (\<exists>self'. extract_candidate_info known_email ''write to c@d.org'' [] = Inr self' \<and>
      candidate_info self' ''email'' = Some (PyStr ''a@b.com''))"
proof -
  have 1: "extract_email (Some ''write to c@d.org'') = Some ''c@d.org''"
    by code_simp
  have 2: "candidate_info known_email ''email'' = Some (PyStr ''a@b.com'')"
    by (simp add: known_email_def)
  show ?thesis
    using 1 2 merge_first_write_wins [of known_email "''write to c@d.org''" "[]"] by blast
qed

text \<open>
  C3 fails on the code. For the utterance "I have 1 year of experience" the merge stores
  \<open>1 years\<close> under \<open>experience\<close>: it appends \<open>' years'\<close> to the group and has no singular
  form, which \<open>ExperienceValidator.extract_experience\<close> has.
\<close>

theorem merge_stores_one_years:
  "(case extract_candidate_info new_chatbot ''I have 1 year of experience'' [] of
      Inr self' \<Rightarrow> candidate_info self' ''experience''
    | Inl e \<Rightarrow> None) = Some (PyStr ''1 years'')"
  by code_simp

lemma slice_append: "i \<le> k \<Longrightarrow> k \<le> j \<Longrightarrow> slice s i j = slice s i k @ slice s k j"
proof -
  assume a: "i \<le> k" "k \<le> j"
  then have "j - i = (k - i) + (j - k)" by simp
  then have "take (j - i) (drop i s) = take (k - i) (drop i s) @ take (j - k) (drop (k - i) (drop i s))"
    by (simp only: take_add)
  then show ?thesis
    using a by (simp add: slice_def)
qed

lemma not_digit_dot: "\<not> py_isdigit CHR ''.''"
  by (simp add: py_isdigit_def)

lemma accepts_number_part:
  "accepts number_part g \<longleftrightarrow>
     (\<exists>ip. ip \<noteq> [] \<and> list_all py_isdigit ip \<and>
        (g = ip \<or> (\<exists>fp. fp \<noteq> [] \<and> list_all py_isdigit fp \<and> g = ip @ ''.'' @ fp)))"
proof
  assume "accepts number_part g"
  then have "\<exists>n\<le>length g. accepts (Rep py_isdigit 1 None) (take n g) \<and>
      accepts (Opt (Seq (Lit ''.'') (Rep py_isdigit 1 None))) (drop n g)"
    unfolding number_part_def accepts_Seq_iff [of "Rep py_isdigit 1 None"] .
  then obtain n where n0: "accepts (Rep py_isdigit 1 None) (take n g)"
    and r0: "accepts (Opt (Seq (Lit ''.'') (Rep py_isdigit 1 None))) (drop n g)"
    by blast
  from n0 have n: "list_all py_isdigit (take n g)" and ip: "take n g \<noteq> []"
    by auto
  from r0 have r: "drop n g = [] \<or> accepts (Seq (Lit ''.'') (Rep py_isdigit 1 None)) (drop n g)"
    by simp
  from r show "\<exists>ip. ip \<noteq> [] \<and> list_all py_isdigit ip \<and>
        (g = ip \<or> (\<exists>fp. fp \<noteq> [] \<and> list_all py_isdigit fp \<and> g = ip @ ''.'' @ fp))"
  proof
    assume "drop n g = []"
    then have "g = take n g"
      by (metis append_Nil2 append_take_drop_id)
    with n ip show ?thesis by metis
  next
    assume "accepts (Seq (Lit ''.'') (Rep py_isdigit 1 None)) (drop n g)"
    then have "\<exists>k\<le>length (drop n g). accepts (Lit ''.'') (take k (drop n g)) \<and>
        accepts (Rep py_isdigit 1 None) (drop k (drop n g))"
      unfolding accepts_Seq_iff .
    then obtain k where k0: "accepts (Lit ''.'') (take k (drop n g))"
      "accepts (Rep py_isdigit 1 None) (drop k (drop n g))"
      by blast
    have k: "take k (drop n g) = ''.''" "list_all py_isdigit (drop k (drop n g))"
      "drop k (drop n g) \<noteq> []"
      using k0 by auto
    have "g = take n g @ take k (drop n g) @ drop k (drop n g)"
      by (simp only: append_take_drop_id)
    then have "g = take n g @ ''.'' @ drop k (drop n g)"
      using k(1) by simp
    then show ?thesis
      using n ip k(2,3) by blast
  qed
next
  assume "\<exists>ip. ip \<noteq> [] \<and> list_all py_isdigit ip \<and>
        (g = ip \<or> (\<exists>fp. fp \<noteq> [] \<and> list_all py_isdigit fp \<and> g = ip @ ''.'' @ fp))"
  then obtain ip where ip: "ip \<noteq> []" "list_all py_isdigit ip"
    and g: "g = ip \<or> (\<exists>fp. fp \<noteq> [] \<and> list_all py_isdigit fp \<and> g = ip @ ''.'' @ fp)"
    by blast
  have len: "1 \<le> length ip"
    using ip(1) by (cases ip) auto
  from g show "accepts number_part g"
  proof
    assume "g = ip"
    then show ?thesis
      unfolding number_part_def accepts_Seq_iff using ip len
      by (intro exI [of _ "length ip"]) simp
  next
    assume "\<exists>fp. fp \<noteq> [] \<and> list_all py_isdigit fp \<and> g = ip @ ''.'' @ fp"
    then obtain fp where fp: "fp \<noteq> []" "list_all py_isdigit fp" "g = ip @ ''.'' @ fp"
      by blast
    have "1 \<le> length fp"
      using fp(1) by (cases fp) auto
    then have "accepts (Seq (Lit ''.'') (Rep py_isdigit 1 None)) (''.'' @ fp)"
      unfolding accepts_Seq_iff using fp(2) by (intro exI [of _ 1]) simp
    then show ?thesis
      unfolding number_part_def accepts_Seq_iff [of "Rep py_isdigit 1 None"] using ip len fp(3)
      by (intro exI [of _ "length ip"]) simp
  qed
qed

lemma py_float_number:
  assumes "accepts number_part g"
  shows "\<exists>years. py_float g = Inr years"
proof -
  from assms obtain ip where ip: "ip \<noteq> []" "list_all py_isdigit ip"
    and g: "g = ip \<or> (\<exists>fp. fp \<noteq> [] \<and> list_all py_isdigit fp \<and> g = ip @ ''.'' @ fp)"
    unfolding accepts_number_part by blast
  have all: "\<forall>c\<in>set ip. py_isdigit c"
    using ip(2) by (simp add: list_all_iff)
  from g show ?thesis
  proof
    assume "g = ip"
    then have tw: "takeWhile py_isdigit g = ip" and dw: "dropWhile py_isdigit g = []"
      using all by simp_all
    show ?thesis
      unfolding py_float_def Let_def tw dw using ip(1) by simp
  next
    assume "\<exists>fp. fp \<noteq> [] \<and> list_all py_isdigit fp \<and> g = ip @ ''.'' @ fp"
    then obtain fp where fp: "fp \<noteq> []" "list_all py_isdigit fp" "g = ip @ ''.'' @ fp"
      by blast
    have tw: "takeWhile py_isdigit g = ip" and dw: "dropWhile py_isdigit g = CHR ''.'' # fp"
      using all fp(3) not_digit_dot by (simp_all add: takeWhile_append2 dropWhile_append2)
    show ?thesis
      unfolding py_float_def Let_def tw dw using ip(1) fp(1,2) by simp
  qed
qed

lemma re_search_experience_Nil: "re_search experience_pattern [] = None"
  by code_simp

lemma extract_experience_cases:
  "(re_search experience_pattern (py_lower t) = None \<and> extract_experience (Some t) = Inr None) \<or>
   (\<exists>m k years. re_search experience_pattern (py_lower t) = Some m \<and>
      m_start m \<le> k \<and> k \<le> m_end m \<and>
      accepts number_part (slice (py_lower t) (m_start m) k) \<and>
      accepts tail_part (slice (py_lower t) k (m_end m)) \<and>
      py_float (slice (py_lower t) (m_start m) k) = Inr years \<and>
      extract_experience (Some t) =
        Inr (Some (if years = float_one then ''1 year'' else float_repr years @ '' years'')))"
proof (cases "re_search experience_pattern (py_lower t)")
  case None
  then show ?thesis
    by (simp add: extract_experience_def)
next
  case (Some m)
  then have ne: "t \<noteq> []"
    using re_search_experience_Nil by (auto simp: py_lower_def)
  from Some obtain k where k: "m_group1 m = Some (m_start m, k)" "m_start m \<le> k" "k \<le> m_end m"
    "accepts number_part (slice (py_lower t) (m_start m) k)"
    "accepts tail_part (slice (py_lower t) k (m_end m))"
    using experience_search by blast
  from k(4) obtain years where y: "py_float (slice (py_lower t) (m_start m) k) = Inr years"
    using py_float_number by blast
  have "extract_experience (Some t) =
      Inr (Some (if years = float_one then ''1 year'' else float_repr years @ '' years''))"
    using ne Some k(1) y by (simp add: extract_experience_def group1_def)
  with Some k y show ?thesis
    by blast
qed

text \<open>
  C4. \<open>extract_experience\<close> never raises. It returns nothing exactly when the lower-cased
  text has no match of the pattern. Otherwise the lower-cased text is
  \<open>pre @ num @ rest @ post\<close> with \<open>num\<close> the number of the leftmost match, and the result is
  \<open>1 year\<close> when the float read from \<open>num\<close> equals 1 and else the \<open>repr\<close> of that float
  followed by \<open>years\<close>. The three examples of the claim evaluate as it says.
\<close>

theorem extract_experience_spec:
  "extract_experience None = Inr None \<and>
   (extract_experience (Some t) = Inr None \<longleftrightarrow>
      \<not> (\<exists>pre w post. py_lower t = pre @ w @ post \<and> accepts experience_pattern w)) \<and>
   (extract_experience (Some t) \<noteq> Inr None \<longrightarrow>
      (\<exists>pre num rest post years.
         py_lower t = pre @ num @ rest @ post \<and>
         accepts number_part num \<and> accepts tail_part rest \<and>
         (\<forall>pre' w post'. py_lower t = pre' @ w @ post' \<and> accepts experience_pattern w \<longrightarrow>
            length pre \<le> length pre') \<and>
         py_float num = Inr years \<and>
         extract_experience (Some t) =
           Inr (Some (if years = float_one then ''1 year'' else float_repr years @ '' years'')))) \<and>
   extract_experience (Some ''I have 1 year of experience'') = Inr (Some ''1 year'') \<and>
   extract_experience (Some ''I have 5 years'') = Inr (Some ''5.0 years'') \<and>
   extract_experience (Some ''3.5 yrs'') = Inr (Some ''3.5 years'')"
proof -
  let ?s = "py_lower t"
  have a: "extract_experience None = Inr None"
    by (simp add: extract_experience_def)
  have b: "extract_experience (Some t) = Inr None \<longleftrightarrow>
      \<not> (\<exists>pre w post. ?s = pre @ w @ post \<and> accepts experience_pattern w)"
    using extract_experience_cases [of t]
      re_search_None_iff [OF bnd_free_patterns(3), of ?s] by auto
  have c: "\<exists>pre num rest post years.
         ?s = pre @ num @ rest @ post \<and>
         accepts number_part num \<and> accepts tail_part rest \<and>
         (\<forall>pre' w post'. ?s = pre' @ w @ post' \<and> accepts experience_pattern w \<longrightarrow>
            length pre \<le> length pre') \<and>
         py_float num = Inr years \<and>
         extract_experience (Some t) =
           Inr (Some (if years = float_one then ''1 year'' else float_repr years @ '' years''))"
    if "extract_experience (Some t) \<noteq> Inr None"
  proof -
    from that obtain m k years where m: "re_search experience_pattern ?s = Some m"
      and k: "m_start m \<le> k" "k \<le> m_end m"
      and acc: "accepts number_part (slice ?s (m_start m) k)" "accepts tail_part (slice ?s k (m_end m))"
      and y: "py_float (slice ?s (m_start m) k) = Inr years"
      and e: "extract_experience (Some t) =
        Inr (Some (if years = float_one then ''1 year'' else float_repr years @ '' years''))"
      using extract_experience_cases [of t] by auto
    from re_search_Some [OF bnd_free_patterns(3) m]
    obtain pre post where d: "?s = pre @ group ?s m @ post"
      and left: "\<forall>pre' w post'. ?s = pre' @ w @ post' \<and> accepts experience_pattern w \<longrightarrow>
            length pre \<le> length pre'"
      by blast
    have "group ?s m = slice ?s (m_start m) k @ slice ?s k (m_end m)"
      unfolding group_def using k by (rule slice_append)
    with d have "?s = pre @ slice ?s (m_start m) k @ slice ?s k (m_end m) @ post"
      by simp
    with acc left y e show ?thesis
      by blast
  qed
  have e1: "extract_experience (Some ''I have 1 year of experience'') = Inr (Some ''1 year'')"
  proof -
    have l: "py_lower ''I have 1 year of experience'' = ''i have 1 year of experience''"
      by code_simp
    have s: "re_search experience_pattern ''i have 1 year of experience'' =
        Some \<lparr>m_start = 7, m_end = 13, m_group1 = Some (7, 8)\<rparr>"
      by code_simp
    have g: "slice ''i have 1 year of experience'' 7 8 = ''1''"
      by code_simp
    have f: "py_float ''1'' = Inr (Fin 4503599627370496 (- 52))"
      by code_simp
    show ?thesis
      by (simp add: extract_experience_def l s group1_def g f float_one_def)
  qed
  have e2: "extract_experience (Some ''I have 5 years'') = Inr (Some ''5.0 years'')"
  proof -
    have l: "py_lower ''I have 5 years'' = ''i have 5 years''"
      by code_simp
    have s: "re_search experience_pattern ''i have 5 years'' =
        Some \<lparr>m_start = 7, m_end = 14, m_group1 = Some (7, 8)\<rparr>"
      by code_simp
    have g: "slice ''i have 5 years'' 7 8 = ''5''"
      by code_simp
    have f: "py_float ''5'' = Inr (Fin 5629499534213120 (- 50))"
      by code_simp
    have d: "float_digits 5629499534213120 (- 50) = (''5'', 1)"
      by code_simp
    show ?thesis
      by (simp add: extract_experience_def l s group1_def g f float_repr_def d float_one_def)
  qed
  have e3: "extract_experience (Some ''3.5 yrs'') = Inr (Some ''3.5 years'')"
  proof -
    have l: "py_lower ''3.5 yrs'' = ''3.5 yrs''"
      by code_simp
    have s: "re_search experience_pattern ''3.5 yrs'' =
        Some \<lparr>m_start = 0, m_end = 7, m_group1 = Some (0, 3)\<rparr>"
      by code_simp
    have g: "slice ''3.5 yrs'' 0 3 = ''3.5''"
      by code_simp
    have f: "py_float ''3.5'' = Inr (Fin 7881299347898368 (- 51))"
      by code_simp
    have d: "float_digits 7881299347898368 (- 51) = (''35'', 1)"
      by code_simp
    show ?thesis
      by (simp add: extract_experience_def l s group1_def g f float_repr_def d float_one_def)
  qed
  from a b c e1 e2 e3 show ?thesis
    by blast
qed

theorem extract_experience_spec_witness:
  "extract_experience (Some ''I have 5 years'') \<noteq> Inr None \<and>
   (\<exists>pre num rest post years.
      py_lower ''I have 5 years'' = pre @ num @ rest @ post \<and>
      accepts number_part num \<and> accepts tail_part rest \<and>
      py_float num = Inr years \<and>
      extract_experience (Some ''I have 5 years'') =
        Inr (Some (if years = float_one then ''1 year'' else float_repr years @ '' years'')))"
proof -
  have "extract_experience (Some ''I have 5 years'') = Inr (Some ''5.0 years'')"
    using extract_experience_spec [of "[]"] by blast
  then have "extract_experience (Some ''I have 5 years'') \<noteq> Inr None"
    by simp
  then show ?thesis
    using extract_experience_spec [of "''I have 5 years''"] by blast
qed

end
